theory Spec2Isabelle
  imports Complex_Main
begin

section \<open>The domain record catalogue of \<^verbatim>\<open>src/types/index.ts\<close>\<close>

text \<open>
  The TypeScript file declares interfaces only. Each interface becomes a record with the
  fields in the order of the declaration. A field declared with \<^verbatim>\<open>?\<close> may be
  absent and has an \<open>option\<close> type; \<^verbatim>\<open>string\<close> is \<open>string\<close>,
  \<^verbatim>\<open>boolean\<close> is \<open>bool\<close>, an array is a list. \<^verbatim>\<open>number\<close> is an IEEE
  double; the records carry the real number it denotes (NaN and the infinities are left
  out). A \<^verbatim>\<open>Date\<close> is carried as its time value in milliseconds. A union of string
  literals is a datatype with one constructor for each literal, and a function that gives
  the literal back.
\<close>

type_synonym number = real
type_synonym Date = int

subsection \<open>Union types of string literals\<close>

text \<open>\<^verbatim>\<open>type: 'text' | 'image' | 'file'\<close> of Message.\<close>

datatype MessageType = T_text | T_image | T_file

fun MessageType_tag :: "MessageType \<Rightarrow> string" where
  "MessageType_tag T_text = ''text''"
| "MessageType_tag T_image = ''image''"
| "MessageType_tag T_file = ''file''"

text \<open>\<^verbatim>\<open>type: 'like' | 'comment' | 'follow' | 'mention' | 'message'\<close> of Notification.\<close>

datatype NotificationType = N_like | N_comment | N_follow | N_mention | N_message

fun NotificationType_tag :: "NotificationType \<Rightarrow> string" where
  "NotificationType_tag N_like = ''like''"
| "NotificationType_tag N_comment = ''comment''"
| "NotificationType_tag N_follow = ''follow''"
| "NotificationType_tag N_mention = ''mention''"
| "NotificationType_tag N_message = ''message''"

text \<open>\<^verbatim>\<open>type: 'users' | 'posts' | 'all'\<close> of SearchFilters.\<close>

datatype SearchType = S_users | S_posts | S_all

fun SearchType_tag :: "SearchType \<Rightarrow> string" where
  "SearchType_tag S_users = ''users''"
| "SearchType_tag S_posts = ''posts''"
| "SearchType_tag S_all = ''all''"

text \<open>\<^verbatim>\<open>sortBy: 'recent' | 'popular' | 'relevance'\<close> of SearchFilters.\<close>

datatype SortBy = O_recent | O_popular | O_relevance

fun SortBy_tag :: "SortBy \<Rightarrow> string" where
  "SortBy_tag O_recent = ''recent''"
| "SortBy_tag O_popular = ''popular''"
| "SortBy_tag O_relevance = ''relevance''"

subsection \<open>The interfaces\<close>

record User =
  id :: string
  username :: string
  email :: string
  firstName :: string
  lastName :: string
  bio :: "string option"
  avatar :: "string option"
  coverImage :: "string option"
  followers :: "string list"
  following :: "string list"
  createdAt :: Date
  updatedAt :: Date
  isVerified :: bool
  location :: "string option"
  website :: "string option"

record Comment =
  id :: string
  postId :: string
  authorId :: string
  content :: string
  likes :: "string list"
  createdAt :: Date
  updatedAt :: Date
  parentId :: "string option"

record Post =
  id :: string
  authorId :: string
  content :: string
  images :: "string list option"
  likes :: "string list"
  comments :: "Comment list"
  shares :: number
  createdAt :: Date
  updatedAt :: Date
  isPublic :: bool
  tags :: "string list option"

record Message =
  id :: string
  senderId :: string
  receiverId :: string
  content :: string
  type :: MessageType
  isRead :: bool
  createdAt :: Date
  attachments :: "string list option"

record Conversation =
  id :: string
  participants :: "string list"
  lastMessage :: "Message option"
  createdAt :: Date
  updatedAt :: Date
  isGroup :: bool
  groupName :: "string option"
  groupImage :: "string option"

record Notification =
  id :: string
  userId :: string
  type :: NotificationType
  fromUserId :: string
  postId :: "string option"
  messageId :: "string option"
  isRead :: bool
  createdAt :: Date

record 'a ApiResponse =
  success :: bool
  data :: "'a option"
  error :: "string option"
  message :: "string option"

text \<open>The anonymous object type of the field \<^verbatim>\<open>pagination\<close>.\<close>

record Pagination =
  page :: number
  limit :: number
  total :: number
  totalPages :: number

record 'a PaginatedResponse =
  data :: "'a list"
  pagination :: Pagination

record SearchFilters =
  query :: string
  type :: SearchType
  sortBy :: SortBy

subsection \<open>The declarations as tables\<close>

text \<open>
  Which fields an interface marks with \<^verbatim>\<open>?\<close> is a fact about the declaration, not
  about a value. The tables below list every interface of the file, field by field in the
  order of the source, each field with its mark.
\<close>

datatype presence = Required | Optional

type_synonym interface_decl = "(string \<times> presence) list"

definition required_fields :: "interface_decl \<Rightarrow> string list" where
  "required_fields d = map fst (filter (\<lambda>f. snd f = Required) d)"

definition optional_fields :: "interface_decl \<Rightarrow> string list" where
  "optional_fields d = map fst (filter (\<lambda>f. snd f = Optional) d)"

definition User_decl :: interface_decl where
  "User_decl =
    [(''id'', Required), (''username'', Required), (''email'', Required),
     (''firstName'', Required), (''lastName'', Required), (''bio'', Optional),
     (''avatar'', Optional), (''coverImage'', Optional), (''followers'', Required),
     (''following'', Required), (''createdAt'', Required), (''updatedAt'', Required),
     (''isVerified'', Required), (''location'', Optional), (''website'', Optional)]"

definition Post_decl :: interface_decl where
  "Post_decl =
    [(''id'', Required), (''authorId'', Required), (''content'', Required),
     (''images'', Optional), (''likes'', Required), (''comments'', Required),
     (''shares'', Required), (''createdAt'', Required), (''updatedAt'', Required),
     (''isPublic'', Required), (''tags'', Optional)]"

definition Comment_decl :: interface_decl where
  "Comment_decl =
    [(''id'', Required), (''postId'', Required), (''authorId'', Required),
     (''content'', Required), (''likes'', Required), (''createdAt'', Required),
     (''updatedAt'', Required), (''parentId'', Optional)]"

definition Message_decl :: interface_decl where
  "Message_decl =
    [(''id'', Required), (''senderId'', Required), (''receiverId'', Required),
     (''content'', Required), (''type'', Required), (''isRead'', Required),
     (''createdAt'', Required), (''attachments'', Optional)]"

definition Conversation_decl :: interface_decl where
  "Conversation_decl =
    [(''id'', Required), (''participants'', Required), (''lastMessage'', Optional),
     (''createdAt'', Required), (''updatedAt'', Required), (''isGroup'', Required),
     (''groupName'', Optional), (''groupImage'', Optional)]"

definition Notification_decl :: interface_decl where
  "Notification_decl =
    [(''id'', Required), (''userId'', Required), (''type'', Required),
     (''fromUserId'', Required), (''postId'', Optional), (''messageId'', Optional),
     (''isRead'', Required), (''createdAt'', Required)]"

definition ApiResponse_decl :: interface_decl where
  "ApiResponse_decl =
    [(''success'', Required), (''data'', Optional), (''error'', Optional),
     (''message'', Optional)]"

definition PaginatedResponse_decl :: interface_decl where
  "PaginatedResponse_decl = [(''data'', Required), (''pagination'', Required)]"

definition LoginForm_decl :: interface_decl where
  "LoginForm_decl = [(''email'', Required), (''password'', Required)]"

definition RegisterForm_decl :: interface_decl where
  "RegisterForm_decl =
    [(''username'', Required), (''email'', Required), (''password'', Required),
     (''confirmPassword'', Required), (''firstName'', Required), (''lastName'', Required)]"

definition PostForm_decl :: interface_decl where
  "PostForm_decl =
    [(''content'', Required), (''images'', Optional), (''isPublic'', Required),
     (''tags'', Optional)]"

definition SearchFilters_decl :: interface_decl where
  "SearchFilters_decl = [(''query'', Required), (''type'', Required), (''sortBy'', Required)]"

definition AppState_decl :: interface_decl where
  "AppState_decl =
    [(''user'', Required), (''isAuthenticated'', Required), (''isLoading'', Required),
     (''error'', Required)]"

definition AuthContextType_decl :: interface_decl where
  "AuthContextType_decl =
    [(''user'', Required), (''isAuthenticated'', Required), (''login'', Required),
     (''register'', Required), (''logout'', Required), (''updateProfile'', Required)]"

definition catalogue :: "interface_decl list" where
  "catalogue =
    [User_decl, Post_decl, Comment_decl, Message_decl, Conversation_decl,
     Notification_decl, ApiResponse_decl, PaginatedResponse_decl, LoginForm_decl,
     RegisterForm_decl, PostForm_decl, SearchFilters_decl, AppState_decl,
     AuthContextType_decl]"

text \<open>
  A declaration is partitioned when no field is declared twice and every field is on
  exactly one side.
\<close>

definition partitioned :: "interface_decl \<Rightarrow> bool" where
  "partitioned d =
    (distinct (map fst d) \<and>
     set (required_fields d) \<union> set (optional_fields d) = set (map fst d) \<and>
     set (required_fields d) \<inter> set (optional_fields d) = {})"

section \<open>The counter of the App component\<close>

text \<open>
  \<^verbatim>\<open>const [count, setCount] = useState(0)\<close> and
  \<^verbatim>\<open><button onClick={() => setCount((count) => count + 1)}>count is {count}</button>\<close>.
  The state \<open>count\<close> is a JavaScript number, an IEEE double. It starts at 0 and only
  ever has 1 added, so it is always an integer: the model carries the integer, and writes
  out the rounding of the sum to the nearest double (53 significant bits, ties to the
  even significand). Magnitudes of \<open>2 ^ 1024\<close> and more, where a double is Infinity,
  are outside the model.
\<close>

text \<open>The number of binary digits of a natural number.\<close>

fun bit_length :: "nat \<Rightarrow> nat" where
  "bit_length n = (if n = 0 then 0 else Suc (bit_length (n div 2)))"

declare bit_length.simps [simp del]

text \<open>\<open>a / 2 ^ e\<close> rounded to the nearest natural number, a tie to the even one.\<close>

definition round_half_even :: "nat \<Rightarrow> nat \<Rightarrow> nat" where
  "round_half_even a e =
    (let q = a div 2 ^ e; r = a mod 2 ^ e; h = 2 ^ (e - 1)
     in if r < h then q else if h < r then q + 1 else if even q then q else q + 1)"

text \<open>The double nearest to an integer.\<close>

definition to_double :: "int \<Rightarrow> int" where
  "to_double n =
    (let a = nat \<bar>n\<bar>; e = bit_length a - 53
     in if bit_length a \<le> 53 then n else sgn n * int (round_half_even a e * 2 ^ e))"

text \<open>\<^verbatim>\<open>a + b\<close> on integer-valued doubles: the exact sum, rounded.\<close>

definition js_add :: "int \<Rightarrow> int \<Rightarrow> int" where
  "js_add a b = to_double (a + b)"

text \<open>The updater \<^verbatim>\<open>(count) => count + 1\<close> that the click handler passes to setCount.\<close>

definition increment :: "int \<Rightarrow> int" where
  "increment count = js_add count 1"

text \<open>The count after \<open>k\<close> clicks, from the initial state \<^verbatim>\<open>useState(0)\<close>.\<close>

fun clicks :: "nat \<Rightarrow> int" where
  "clicks 0 = 0"
| "clicks (Suc k) = increment (clicks k)"

section \<open>Conditions on record values\<close>

text \<open>
  The interfaces give every field a type and nothing more. The conditions below relate
  the values of the fields of one record. Each is a predicate on the record; which of them
  the declarations guarantee is settled in the second half of the theory.
\<close>

text \<open>Page metadata: the page count is the item count over the page size, rounded up,
  and the current page lies between 0 and the page count.\<close>

definition Pagination_ok :: "Pagination \<Rightarrow> bool" where
  "Pagination_ok p =
    (totalPages p = of_int \<lceil>total p / limit p\<rceil> \<and> 0 \<le> page p \<and> page p \<le> totalPages p)"

text \<open>A conversation has participants: exactly two when it is not a group, at least two
  when it is.\<close>

definition Conversation_ok :: "Conversation \<Rightarrow> bool" where
  "Conversation_ok c =
    (participants c \<noteq> [] \<and>
     (if isGroup c then 2 \<le> length (participants c) else length (participants c) = 2))"

text \<open>Sender and receiver of a message differ; so do the recipient of a notification and
  the user who triggered it.\<close>

definition Message_ids_differ :: "Message \<Rightarrow> bool" where
  "Message_ids_differ m = (senderId m \<noteq> receiverId m)"

definition Notification_ids_differ :: "Notification \<Rightarrow> bool" where
  "Notification_ids_differ n = (userId n \<noteq> fromUserId n)"

text \<open>The share count of a post is a non-negative integer and no user id occurs twice
  among its likes.\<close>

definition Post_ok :: "Post \<Rightarrow> bool" where
  "Post_ok p = (shares p \<in> \<int> \<and> 0 \<le> shares p \<and> distinct (Post.likes p))"

text \<open>Exactly one of payload and error text of a result envelope is present.\<close>

definition ApiResponse_one :: "'a ApiResponse \<Rightarrow> bool" where
  "ApiResponse_one r = ((ApiResponse.data r \<noteq> None) \<noteq> (error r \<noteq> None))"

text \<open>
  The comment above the interface: \<^verbatim>\<open>Optional properties: data?, error?, message?
  (only one will be present)\<close>. Of payload, error text and message exactly one is
  present.
\<close>

definition ApiResponse_only_one :: "'a ApiResponse \<Rightarrow> bool" where
  "ApiResponse_only_one r =
    ((ApiResponse.data r \<noteq> None \<and> error r = None \<and> message r = None) \<or>
     (ApiResponse.data r = None \<and> error r \<noteq> None \<and> message r = None) \<or>
     (ApiResponse.data r = None \<and> error r = None \<and> message r \<noteq> None))"

text \<open>A user neither follows nor is followed by itself.\<close>

definition User_ok :: "User \<Rightarrow> bool" where
  "User_ok u = (User.id u \<notin> set (followers u) \<and> User.id u \<notin> set (following u))"

section \<open>Reply chains\<close>

text \<open>
  \<^verbatim>\<open>parentId?: string\<close> of a comment names another comment by its id. Inside a post,
  the parent of a comment is the comment of the post with that id (the first, should
  several share it); there is none when parentId is absent or names no comment of the
  post.
\<close>

definition parent_in :: "Post \<Rightarrow> Comment \<Rightarrow> Comment option" where
  "parent_in p c =
    (case parentId c of
       None \<Rightarrow> None
     | Some i \<Rightarrow> find (\<lambda>d. Comment.id d = i) (comments p))"

text \<open>The comment reached from \<open>c\<close> by \<open>k\<close> parent links, if the links lead that far.\<close>

fun nth_ancestor :: "Post \<Rightarrow> nat \<Rightarrow> Comment \<Rightarrow> Comment option" where
  "nth_ancestor p 0 c = Some c"
| "nth_ancestor p (Suc k) c =
    (case parent_in p c of None \<Rightarrow> None | Some d \<Rightarrow> nth_ancestor p k d)"

text \<open>
  Following the parent links from \<open>c\<close>, visiting at most \<open>n\<close> comments: the comments
  visited, \<open>c\<close> first, when the links end within that bound, and \<open>None\<close> when they
  do not.
\<close>

fun reply_chain :: "nat \<Rightarrow> Post \<Rightarrow> Comment \<Rightarrow> Comment list option" where
  "reply_chain 0 p c = None"
| "reply_chain (Suc n) p c =
    (case parent_in p c of
       None \<Rightarrow> Some [c]
     | Some d \<Rightarrow> map_option (\<lambda>ds. c # ds) (reply_chain n p d))"

text \<open>A comment is its own ancestor when one or more parent links lead from it back to
  it; the replies of a post are acyclic when none of its comments is.\<close>

definition own_ancestor :: "Post \<Rightarrow> Comment \<Rightarrow> bool" where
  "own_ancestor p c = (\<exists>k. 0 < k \<and> nth_ancestor p k c = Some c)"

definition acyclic_replies :: "Post \<Rightarrow> bool" where
  "acyclic_replies p = (\<forall>d \<in> set (comments p). \<not> own_ancestor p d)"

text \<open>Two posts to try the definitions on: one whose only comment names itself as its
  parent, and one with a comment and a reply to it.\<close>

definition self_reply :: Comment where
  "self_reply =
    \<lparr>Comment.id = ''c1'', Comment.postId = ''p1'', Comment.authorId = ''u1'',
     Comment.content = ''hi'', Comment.likes = [], Comment.createdAt = 0,
     Comment.updatedAt = 0, parentId = Some ''c1''\<rparr>"

definition self_reply_post :: Post where
  "self_reply_post =
    \<lparr>Post.id = ''p1'', Post.authorId = ''u1'', Post.content = ''hello'', images = None,
     Post.likes = [], comments = [self_reply], shares = 0, Post.createdAt = 0,
     Post.updatedAt = 0, isPublic = True, tags = None\<rparr>"

definition first_comment :: Comment where
  "first_comment =
    \<lparr>Comment.id = ''c1'', Comment.postId = ''p2'', Comment.authorId = ''u1'',
     Comment.content = ''hi'', Comment.likes = [], Comment.createdAt = 0,
     Comment.updatedAt = 0, parentId = None\<rparr>"

definition its_reply :: Comment where
  "its_reply =
    \<lparr>Comment.id = ''c2'', Comment.postId = ''p2'', Comment.authorId = ''u2'',
     Comment.content = ''hi back'', Comment.likes = [], Comment.createdAt = 1,
     Comment.updatedAt = 1, parentId = Some ''c1''\<rparr>"

definition replied_post :: Post where
  "replied_post =
    \<lparr>Post.id = ''p2'', Post.authorId = ''u1'', Post.content = ''hello'', images = None,
     Post.likes = [], comments = [first_comment, its_reply], shares = 0,
     Post.createdAt = 0, Post.updatedAt = 1, isPublic = True, tags = None\<rparr>"

section \<open>Closed tag sets\<close>

lemma MessageType_UNIV: "(UNIV :: MessageType set) = {T_text, T_image, T_file}"
  by (auto intro: MessageType.exhaust)

lemma NotificationType_UNIV:
  "(UNIV :: NotificationType set) = {N_like, N_comment, N_follow, N_mention, N_message}"
  by (auto intro: NotificationType.exhaust)

lemma SearchType_UNIV: "(UNIV :: SearchType set) = {S_users, S_posts, S_all}"
  by (auto intro: SearchType.exhaust)

lemma SortBy_UNIV: "(UNIV :: SortBy set) = {O_recent, O_popular, O_relevance}"
  by (auto intro: SortBy.exhaust)

lemma MessageType_tag_range:
  "(s \<in> range MessageType_tag) = (s = ''text'' \<or> s = ''image'' \<or> s = ''file'')"
  unfolding MessageType_UNIV by auto

lemma NotificationType_tag_range:
  "(s \<in> range NotificationType_tag) =
     (s = ''like'' \<or> s = ''comment'' \<or> s = ''follow'' \<or> s = ''mention'' \<or> s = ''message'')"
  unfolding NotificationType_UNIV by auto

lemma SearchType_tag_range:
  "(s \<in> range SearchType_tag) = (s = ''users'' \<or> s = ''posts'' \<or> s = ''all'')"
  unfolding SearchType_UNIV by auto

lemma SortBy_tag_range:
  "(s \<in> range SortBy_tag) = (s = ''recent'' \<or> s = ''popular'' \<or> s = ''relevance'')"
  unfolding SortBy_UNIV by auto

lemma MessageType_tag_inj: "inj MessageType_tag"
proof (rule injI)
  fix x y
  assume "MessageType_tag x = MessageType_tag y"
  then show "x = y" by (cases x; cases y) simp_all
qed

lemma NotificationType_tag_inj: "inj NotificationType_tag"
proof (rule injI)
  fix x y
  assume "NotificationType_tag x = NotificationType_tag y"
  then show "x = y" by (cases x; cases y) simp_all
qed

lemma SearchType_tag_inj: "inj SearchType_tag"
proof (rule injI)
  fix x y
  assume "SearchType_tag x = SearchType_tag y"
  then show "x = y" by (cases x; cases y) simp_all
qed

lemma SortBy_tag_inj: "inj SortBy_tag"
proof (rule injI)
  fix x y
  assume "SortBy_tag x = SortBy_tag y"
  then show "x = y" by (cases x; cases y) simp_all
qed

text \<open>
  C4. The four tag sets are closed and exactly as declared: a value of the message type
  is one of text, image, file; of the notification type one of like, comment, follow,
  mention, message; of the search scope one of users, posts, all; of the sort order one
  of recent, popular, relevance. A string is the literal of a tag exactly when it is one
  of the listed literals, and different tags have different literals.
\<close>

theorem tag_sets_closed:
  "(mt \<in> {T_text, T_image, T_file}) \<and>
   (nt \<in> {N_like, N_comment, N_follow, N_mention, N_message}) \<and>
   (st \<in> {S_users, S_posts, S_all}) \<and>
   (sb \<in> {O_recent, O_popular, O_relevance}) \<and>
   (s \<in> range MessageType_tag) = (s = ''text'' \<or> s = ''image'' \<or> s = ''file'') \<and>
   (s \<in> range NotificationType_tag) =
     (s = ''like'' \<or> s = ''comment'' \<or> s = ''follow'' \<or> s = ''mention'' \<or> s = ''message'') \<and>
   (s \<in> range SearchType_tag) = (s = ''users'' \<or> s = ''posts'' \<or> s = ''all'') \<and>
   (s \<in> range SortBy_tag) = (s = ''recent'' \<or> s = ''popular'' \<or> s = ''relevance'') \<and>
   inj MessageType_tag \<and> inj NotificationType_tag \<and> inj SearchType_tag \<and> inj SortBy_tag"
proof -
  have "mt \<in> {T_text, T_image, T_file}"
    using MessageType_UNIV by blast
  moreover have "nt \<in> {N_like, N_comment, N_follow, N_mention, N_message}"
    using NotificationType_UNIV by blast
  moreover have "st \<in> {S_users, S_posts, S_all}"
    using SearchType_UNIV by blast
  moreover have "sb \<in> {O_recent, O_popular, O_relevance}"
    using SortBy_UNIV by blast
  ultimately show ?thesis
    by (simp only: MessageType_tag_range NotificationType_tag_range SearchType_tag_range
        SortBy_tag_range MessageType_tag_inj NotificationType_tag_inj SearchType_tag_inj
        SortBy_tag_inj simp_thms)
qed

section \<open>Required and optional fields\<close>

lemma fields_cover: "set (required_fields d) \<union> set (optional_fields d) = set (map fst d)"
proof (induction d)
  case Nil
  show ?case by (simp add: required_fields_def optional_fields_def)
next
  case (Cons f d)
  obtain n k where f: "f = (n, k)" by (cases f)
  from Cons show ?case
    by (cases k) (auto simp: f required_fields_def optional_fields_def)
qed

lemma fields_apart:
  "distinct (map fst d) \<Longrightarrow> set (required_fields d) \<inter> set (optional_fields d) = {}"
proof (induction d)
  case Nil
  show ?case by (simp add: required_fields_def optional_fields_def)
next
  case (Cons f d)
  obtain n k where f: "f = (n, k)" by (cases f)
  have "n \<notin> set (required_fields d)" "n \<notin> set (optional_fields d)"
    using Cons.prems by (auto simp: f required_fields_def optional_fields_def)
  with Cons show ?case
    by (cases k) (auto simp: f required_fields_def optional_fields_def)
qed

lemma partitioned_iff: "partitioned d = distinct (map fst d)"
  using fields_cover [of d] fields_apart [of d] by (auto simp: partitioned_def)

lemma catalogue_partitioned: "list_all partitioned catalogue"
  by (simp add: catalogue_def partitioned_iff
      User_decl_def Post_decl_def Comment_decl_def Message_decl_def Conversation_decl_def
      Notification_decl_def ApiResponse_decl_def PaginatedResponse_decl_def LoginForm_decl_def
      RegisterForm_decl_def PostForm_decl_def SearchFilters_decl_def AppState_decl_def
      AuthContextType_decl_def)

text \<open>
  C9. Every interface of the catalogue splits its fields into required and optional ones,
  each field on exactly one side. The optional fields of User are exactly bio, avatar,
  coverImage, location and website, the other ten are required. An absent optional field
  is a different value from a present empty one: an absent bio is not the empty bio, and
  an absent image list is not the empty image list.
\<close>

theorem fields_required_or_optional:
  "list_all partitioned catalogue \<and>
   optional_fields User_decl = [''bio'', ''avatar'', ''coverImage'', ''location'', ''website''] \<and>
   required_fields User_decl =
     [''id'', ''username'', ''email'', ''firstName'', ''lastName'', ''followers'',
      ''following'', ''createdAt'', ''updatedAt'', ''isVerified''] \<and>
   bio ((u :: User)\<lparr>bio := None\<rparr>) \<noteq> bio (u\<lparr>bio := Some ''''\<rparr>) \<and>
   images ((p :: Post)\<lparr>images := None\<rparr>) \<noteq> images (p\<lparr>images := Some []\<rparr>)"
proof -
  have "optional_fields User_decl =
      [''bio'', ''avatar'', ''coverImage'', ''location'', ''website'']"
    by (simp add: optional_fields_def User_decl_def)
  moreover have "required_fields User_decl =
      [''id'', ''username'', ''email'', ''firstName'', ''lastName'', ''followers'',
       ''following'', ''createdAt'', ''updatedAt'', ''isVerified'']"
    by (simp add: required_fields_def User_decl_def)
  ultimately show ?thesis
    using catalogue_partitioned by simp
qed

section \<open>The counter\<close>

lemma bit_length_le: "n < 2 ^ k \<Longrightarrow> bit_length n \<le> k"
proof (induction k arbitrary: n)
  case 0
  then show ?case by (simp add: bit_length.simps)
next
  case (Suc k)
  show ?case
  proof (cases "n = 0")
    case True
    then show ?thesis by (simp add: bit_length.simps)
  next
    case False
    from Suc.prems have "n div 2 < 2 ^ k" by simp
    from Suc.IH [OF this] False show ?thesis
      by (subst bit_length.simps) simp
  qed
qed

lemma bit_length_eq: "2 ^ k \<le> n \<Longrightarrow> n < 2 ^ Suc k \<Longrightarrow> bit_length n = Suc k"
proof (induction k arbitrary: n)
  case 0
  then have "n = 1" by simp
  then show ?case by (simp add: bit_length.simps)
next
  case (Suc k)
  then have "2 ^ k \<le> n div 2" "n div 2 < 2 ^ Suc k" "n \<noteq> 0" by auto
  with Suc.IH [of "n div 2"] show ?case
    by (subst bit_length.simps) simp
qed

lemma to_double_small: "\<bar>n\<bar> < 2 ^ 53 \<Longrightarrow> to_double n = n"
proof -
  assume "\<bar>n\<bar> < 2 ^ 53"
  then have "nat \<bar>n\<bar> < 2 ^ 53"
    by (metis nat_less_numeral_power_cancel_iff)
  then have "bit_length (nat \<bar>n\<bar>) \<le> 53" by (rule bit_length_le)
  then show ?thesis by (simp add: to_double_def Let_def)
qed

lemma bit_length_pow53: "bit_length 9007199254740992 = 54"
  using bit_length_eq [of 53 9007199254740992] by simp

lemma bit_length_pow53_plus1: "bit_length 9007199254740993 = 54"
  using bit_length_eq [of 53 9007199254740993] by simp

lemma to_double_pow53: "to_double 9007199254740992 = 9007199254740992"
  by (simp add: to_double_def Let_def bit_length_pow53 round_half_even_def)

lemma to_double_pow53_plus1: "to_double 9007199254740993 = 9007199254740992"
  by (simp add: to_double_def Let_def bit_length_pow53_plus1 round_half_even_def)

lemma increment_small: "- (2 ^ 53) \<le> n \<Longrightarrow> n < 2 ^ 53 \<Longrightarrow> increment n = n + 1"
proof -
  assume a: "- (2 ^ 53) \<le> n" "n < 2 ^ 53"
  show ?thesis
  proof (cases "n + 1 = 2 ^ 53")
    case True
    then show ?thesis using to_double_pow53 by (simp add: increment_def js_add_def)
  next
    case False
    with a have "\<bar>n + 1\<bar> < 2 ^ 53" by simp
    then show ?thesis by (simp add: increment_def js_add_def to_double_small)
  qed
qed

lemma increment_stuck: "increment 9007199254740992 = 9007199254740992"
  using to_double_pow53_plus1 by (simp add: increment_def js_add_def)

lemma clicks_eq: "clicks k = int (min k (2 ^ 53))"
proof (induction k)
  case 0
  show ?case by simp
next
  case (Suc k)
  show ?case
  proof (cases "k < 2 ^ 53")
    case True
    then have "clicks k = int k" using Suc by simp
    moreover have "int k < 2 ^ 53" using True
      by (metis of_nat_less_numeral_power_cancel_iff)
    ultimately have "clicks (Suc k) = int k + 1"
      by (simp add: increment_small)
    then show ?thesis using True by simp
  next
    case False
    then have "clicks k = 2 ^ 53" using Suc by simp
    then have "clicks (Suc k) = 2 ^ 53" using increment_stuck by simp
    then show ?thesis using False by simp
  qed
qed

text \<open>
  C10, as stated: the handler maps every integer count \<open>n\<close> to \<open>n + 1\<close>. It does
  not at \<open>n = 2 ^ 53 = 9007199254740992\<close>, where the sum is not a double and rounds
  back to \<open>n\<close>.
\<close>

theorem increment_not_successor_everywhere:
  "increment 9007199254740992 \<noteq> 9007199254740992 + 1"
  using increment_stuck by simp

text \<open>
  C10, amended. The handler maps a count \<open>n\<close> to \<open>n + 1\<close> for every integer
  \<open>n\<close> from \<open>- 2 ^ 53\<close> up to, and not including, \<open>2 ^ 53\<close>. Starting from the
  initial count 0, after \<open>k\<close> clicks the count equals \<open>k\<close> for every
  \<open>k \<le> 2 ^ 53\<close>, and the count never decreases from one click to the next.
\<close>

theorem counter_counts_clicks:
  "(- (2 ^ 53) \<le> n \<and> n < 2 ^ 53 \<longrightarrow> increment n = n + 1) \<and>
   (k \<le> 2 ^ 53 \<longrightarrow> clicks k = int k) \<and>
   clicks k \<le> clicks (Suc k)"
proof -
  have "clicks k \<le> clicks (Suc k)"
    unfolding clicks_eq by simp
  moreover have "k \<le> 2 ^ 53 \<longrightarrow> clicks k = int k"
    unfolding clicks_eq by simp
  ultimately show ?thesis
    using increment_small by blast
qed

theorem counter_counts_clicks_witness:
  "- (2 ^ 53) \<le> (41::int) \<and> (41::int) < 2 ^ 53 \<and> increment 41 = 42 \<and>
   (3::nat) \<le> 2 ^ 53 \<and> clicks 3 = 3 \<and> clicks 3 \<le> clicks (Suc 3)"
  using counter_counts_clicks [of 41 3] by simp

section \<open>What the declarations leave open\<close>

text \<open>
  C1, as stated: every paginated response with a positive page size has
  \<open>totalPages = ceil (total / limit)\<close> and \<open>0 \<le> page \<le> totalPages\<close>. The
  declaration admits 95 items in pages of 20 with a page count of 4.
\<close>

theorem pagination_not_guaranteed:
  "0 < limit (pagination \<lparr>data = [''a''], pagination =
          \<lparr>page = 0, limit = 20, total = 95, totalPages = 4\<rparr>\<rparr>) \<and>
   \<not> Pagination_ok (pagination \<lparr>data = [''a''], pagination =
          \<lparr>page = 0, limit = 20, total = 95, totalPages = 4\<rparr>\<rparr>)"
  by (simp add: Pagination_ok_def)

text \<open>
  C1, amended. The declaration types page, limit, total and totalPages as four
  independent numbers: any four numbers, with any items, make a paginated response.
  Among the responses with 95 items in pages of 20, the condition
  \<open>totalPages = ceil (total / limit)\<close> and \<open>0 \<le> page \<le> totalPages\<close> holds
  exactly for those that report 5 pages and a page from 0 to 5; page 6 is out of range.
\<close>

theorem pagination_fields_free:
  "(\<exists>r :: 'a PaginatedResponse. PaginatedResponse.data r = xs \<and> page (pagination r) = a \<and>
      limit (pagination r) = b \<and> total (pagination r) = c \<and> totalPages (pagination r) = d) \<and>
   (total (pagination r') = 95 \<and> limit (pagination r') = 20 \<longrightarrow>
      Pagination_ok (pagination r') =
        (totalPages (pagination r') = 5 \<and> 0 \<le> page (pagination r') \<and>
         page (pagination r') \<le> 5))"
proof -
  have "\<exists>r :: 'a PaginatedResponse. PaginatedResponse.data r = xs \<and> page (pagination r) = a \<and>
      limit (pagination r) = b \<and> total (pagination r) = c \<and> totalPages (pagination r) = d"
    by (rule exI [of _ "\<lparr>data = xs, pagination =
          \<lparr>page = a, limit = b, total = c, totalPages = d\<rparr>\<rparr>"]) simp
  moreover have "total (pagination r') = 95 \<and> limit (pagination r') = 20 \<longrightarrow>
      Pagination_ok (pagination r') =
        (totalPages (pagination r') = 5 \<and> 0 \<le> page (pagination r') \<and>
         page (pagination r') \<le> 5)"
    by (auto simp: Pagination_ok_def)
  ultimately show ?thesis by blast
qed

theorem pagination_fields_free_witness:
  "total (pagination \<lparr>data = [''a''], pagination =
          \<lparr>page = 3, limit = 20, total = 95, totalPages = 5\<rparr>\<rparr>) = 95 \<and>
   limit (pagination \<lparr>data = [''a''], pagination =
          \<lparr>page = 3, limit = 20, total = 95, totalPages = 5\<rparr>\<rparr>) = 20 \<and>
   Pagination_ok (pagination \<lparr>data = [''a''], pagination =
          \<lparr>page = 3, limit = 20, total = 95, totalPages = 5\<rparr>\<rparr>) \<and>
   \<not> Pagination_ok (pagination \<lparr>data = [''a''], pagination =
          \<lparr>page = 6, limit = 20, total = 95, totalPages = 5\<rparr>\<rparr>)"
  using pagination_fields_free [THEN conjunct2, of "\<lparr>data = [''a''], pagination =
          \<lparr>page = 3, limit = 20, total = 95, totalPages = 5\<rparr>\<rparr>"]
    pagination_fields_free [THEN conjunct2, of "\<lparr>data = [''a''], pagination =
          \<lparr>page = 6, limit = 20, total = 95, totalPages = 5\<rparr>\<rparr>"]
  by simp

text \<open>
  C2, as stated: the participants of every conversation are non-empty, exactly two
  without the group flag and at least two with it. The declaration admits a conversation
  that is not a group and has no participant.
\<close>

theorem conversation_size_not_guaranteed:
  "\<not> Conversation_ok
     \<lparr>Conversation.id = ''v1'', participants = [], lastMessage = None,
      Conversation.createdAt = 0, Conversation.updatedAt = 0, isGroup = False,
      groupName = None, groupImage = None\<rparr>"
  by (simp add: Conversation_ok_def)

text \<open>
  C2, amended. The declaration types participants as a list of user ids of any length,
  the empty one included, and the group flag as a boolean of its own: every list goes
  with either value of the flag.
\<close>

theorem conversation_fields_free:
  "\<exists>c :: Conversation. participants c = ps \<and> isGroup c = g"
  by (rule exI [of _ "\<lparr>Conversation.id = ''v1'', participants = ps, lastMessage = None,
      Conversation.createdAt = 0, Conversation.updatedAt = 0, isGroup = g,
      groupName = None, groupImage = None\<rparr>"]) simp

text \<open>
  C5, as stated: sender and receiver of every message differ, and so do recipient and
  triggering user of every notification. The declarations admit a message to oneself and
  a notification about one's own like.
\<close>

theorem ids_differ_not_guaranteed:
  "\<not> Message_ids_differ
     \<lparr>Message.id = ''m1'', senderId = ''u1'', receiverId = ''u1'',
      Message.content = ''note to self'', Message.type = T_text, Message.isRead = False,
      Message.createdAt = 0, attachments = None\<rparr> \<and>
   \<not> Notification_ids_differ
     \<lparr>Notification.id = ''n1'', userId = ''u1'', Notification.type = N_like,
      fromUserId = ''u1'', Notification.postId = Some ''p1'', messageId = None,
      Notification.isRead = False, Notification.createdAt = 0\<rparr>"
  by (simp add: Message_ids_differ_def Notification_ids_differ_def)

text \<open>
  C5, amended. The declarations type senderId and receiverId of a message, and userId and
  fromUserId of a notification, as strings of their own: every pair of ids, equal or not,
  is the pair of some message and of some notification.
\<close>

theorem id_fields_free:
  "(\<exists>m :: Message. senderId m = a \<and> receiverId m = b) \<and>
   (\<exists>n :: Notification. userId n = a \<and> fromUserId n = b)"
proof
  show "\<exists>m :: Message. senderId m = a \<and> receiverId m = b"
    by (rule exI [of _ "\<lparr>Message.id = ''m1'', senderId = a, receiverId = b,
      Message.content = '''', Message.type = T_text, Message.isRead = False,
      Message.createdAt = 0, attachments = None\<rparr>"]) simp
  show "\<exists>n :: Notification. userId n = a \<and> fromUserId n = b"
    by (rule exI [of _ "\<lparr>Notification.id = ''n1'', userId = a, Notification.type = N_like,
      fromUserId = b, Notification.postId = None, messageId = None,
      Notification.isRead = False, Notification.createdAt = 0\<rparr>"]) simp
qed

text \<open>
  C6, as stated: the share count of every post is a non-negative integer and its likes
  are pairwise distinct. The declaration admits a post with \<open>- 1\<close> shares and the same
  user twice among its likes.
\<close>

theorem post_counts_not_guaranteed:
  "\<not> Post_ok
     \<lparr>Post.id = ''p1'', Post.authorId = ''u1'', Post.content = ''hello'', images = None,
      Post.likes = [''u2'', ''u2''], comments = [], shares = - 1, Post.createdAt = 0,
      Post.updatedAt = 0, isPublic = True, tags = None\<rparr>"
  by (simp add: Post_ok_def)

text \<open>
  C6, amended. The declaration types shares as a number and likes as a list of user ids:
  every number, negative or fractional, and every list, with or without repetitions,
  are the shares and the likes of some post.
\<close>

theorem post_fields_free:
  "\<exists>p :: Post. shares p = n \<and> Post.likes p = ls"
  by (rule exI [of _ "\<lparr>Post.id = ''p1'', Post.authorId = ''u1'', Post.content = '''',
      images = None, Post.likes = ls, comments = [], shares = n, Post.createdAt = 0,
      Post.updatedAt = 0, isPublic = True, tags = None\<rparr>"]) simp

text \<open>
  C7, as stated: exactly one of payload and error text of every result envelope is
  present. The declaration admits an envelope that carries a message and neither.
\<close>

theorem envelope_one_of_not_guaranteed:
  "\<not> ApiResponse_one
     \<lparr>success = True, data = (None :: string option), error = None,
      message = Some ''Deleted''\<rparr>"
  by (simp add: ApiResponse_one_def)

text \<open>
  C7, amended. The interface documents that only one of payload, error text and message
  will be present. In every envelope that has exactly one of the three, payload and error
  text are never both present, and exactly one of them is present precisely when the
  message is absent. The envelope that carries only a message, and so neither payload nor
  error text, is such an envelope, with either value of the success flag.
\<close>

theorem envelope_only_one_present:
  "(ApiResponse_only_one r \<longrightarrow>
      \<not> (ApiResponse.data r \<noteq> None \<and> error r \<noteq> None) \<and>
      ApiResponse_one r = (message r = None)) \<and>
   (\<exists>r' :: 'a ApiResponse.
      success r' = s \<and> ApiResponse.data r' = None \<and> error r' = None \<and>
      message r' = Some m \<and> ApiResponse_only_one r')"
proof
  show "ApiResponse_only_one r \<longrightarrow>
      \<not> (ApiResponse.data r \<noteq> None \<and> error r \<noteq> None) \<and>
      ApiResponse_one r = (message r = None)"
    by (auto simp: ApiResponse_only_one_def ApiResponse_one_def)
  show "\<exists>r' :: 'a ApiResponse.
      success r' = s \<and> ApiResponse.data r' = None \<and> error r' = None \<and>
      message r' = Some m \<and> ApiResponse_only_one r'"
    by (rule exI [of _ "\<lparr>success = s, data = None, error = None, message = Some m\<rparr>"])
      (simp add: ApiResponse_only_one_def)
qed

theorem envelope_only_one_present_witness:
  "ApiResponse_only_one
     \<lparr>success = True, data = Some ''payload'', error = None, message = None\<rparr> \<and>
   ApiResponse_one
     \<lparr>success = True, data = Some ''payload'', error = None, message = None\<rparr> \<and>
   ApiResponse_only_one
     \<lparr>success = False, data = (None :: string option), error = Some ''not found'',
      message = None\<rparr> \<and>
   ApiResponse_one
     \<lparr>success = False, data = (None :: string option), error = Some ''not found'',
      message = None\<rparr>"
proof -
  have a: "ApiResponse_only_one
     \<lparr>success = True, data = Some ''payload'', error = None, message = None\<rparr>"
    by (simp add: ApiResponse_only_one_def)
  have b: "ApiResponse_only_one
     \<lparr>success = False, data = (None :: string option), error = Some ''not found'',
      message = None\<rparr>"
    by (simp add: ApiResponse_only_one_def)
  from a b
    envelope_only_one_present [THEN conjunct1, of
      "\<lparr>success = True, data = Some ''payload'', error = None, message = None\<rparr>"]
    envelope_only_one_present [THEN conjunct1, of
      "\<lparr>success = False, data = (None :: string option), error = Some ''not found'',
        message = None\<rparr>"]
  show ?thesis by simp
qed

text \<open>
  C8, as stated: the id of every user occurs neither among its followers nor among the
  users it follows. The declaration admits a user that follows itself.
\<close>

theorem self_follow_not_excluded:
  "\<not> User_ok
     \<lparr>User.id = ''u1'', username = ''ann'', email = ''ann@example.org'', firstName = ''Ann'',
      lastName = ''Lee'', bio = None, avatar = None, coverImage = None,
      followers = [''u1''], following = [''u1''], User.createdAt = 0, User.updatedAt = 0,
      isVerified = False, location = None, website = None\<rparr>"
  by (simp add: User_ok_def)

text \<open>
  C8, amended. The declaration types id as a string and followers and following as lists
  of user ids of their own: every id goes with every two lists, also with lists that
  contain it.
\<close>

theorem user_fields_free:
  "\<exists>u :: User. User.id u = i \<and> followers u = fs \<and> following u = gs"
  by (rule exI [of _ "\<lparr>User.id = i, username = '''', email = '''', firstName = '''',
      lastName = '''', bio = None, avatar = None, coverImage = None,
      followers = fs, following = gs, User.createdAt = 0, User.updatedAt = 0,
      isVerified = False, location = None, website = None\<rparr>"]) simp

section \<open>Reply chains end when no comment is its own ancestor\<close>

lemma parent_in_member: "parent_in p c = Some d \<Longrightarrow> d \<in> set (comments p)"
  by (auto simp: parent_in_def find_Some_iff split: option.splits)

lemma nth_ancestor_member:
  "nth_ancestor p k c = Some d \<Longrightarrow> c \<in> set (comments p) \<Longrightarrow> d \<in> set (comments p)"
proof (induction k arbitrary: c)
  case 0
  then show ?case by simp
next
  case (Suc k)
  then show ?case
    by (auto split: option.splits dest: parent_in_member)
qed

lemma nth_ancestor_add:
  "nth_ancestor p (i + j) c =
     (case nth_ancestor p i c of None \<Rightarrow> None | Some d \<Rightarrow> nth_ancestor p j d)"
  by (induction i arbitrary: c) (auto split: option.splits)

lemma reply_chain_None_ancestors:
  "reply_chain n p c = None \<Longrightarrow> i \<le> n \<Longrightarrow> nth_ancestor p i c \<noteq> None"
proof (induction n arbitrary: c i)
  case 0
  then show ?case by simp
next
  case (Suc n)
  from Suc.prems(1) obtain d where d: "parent_in p c = Some d" "reply_chain n p d = None"
    by (auto split: option.splits)
  show ?case
  proof (cases i)
    case 0
    then show ?thesis by simp
  next
    case (Suc i')
    with Suc.prems(2) have "i' \<le> n" by simp
    from Suc.IH [OF d(2) this] show ?thesis using Suc d(1) by simp
  qed
qed

lemma ancestors_differ:
  assumes acyc: "acyclic_replies p"
    and c: "c \<in> set (comments p)"
    and ij: "i < j"
    and x: "nth_ancestor p i c = Some x"
    and y: "nth_ancestor p j c = Some y"
  shows "x \<noteq> y"
proof
  assume "x = y"
  have "nth_ancestor p (i + (j - i)) c = nth_ancestor p (j - i) x"
    using x by (simp only: nth_ancestor_add option.case)
  with ij y \<open>x = y\<close> have "nth_ancestor p (j - i) x = Some x" by simp
  moreover have "x \<in> set (comments p)" using nth_ancestor_member [OF x c] .
  moreover have "0 < j - i" using ij by simp
  ultimately show False using acyc
    unfolding acyclic_replies_def own_ancestor_def by blast
qed

lemma reply_chain_ends:
  assumes acyc: "acyclic_replies p"
    and c: "c \<in> set (comments p)"
  shows "reply_chain (length (comments p)) p c \<noteq> None"
proof
  let ?N = "length (comments p)"
  let ?g = "\<lambda>i. the (nth_ancestor p i c)"
  assume none: "reply_chain ?N p c = None"
  have def: "\<exists>x. nth_ancestor p i c = Some x" if "i \<le> ?N" for i
    using reply_chain_None_ancestors [OF none that] by auto
  have "inj_on ?g {0..?N}"
  proof (rule inj_onI)
    fix i j
    assume i: "i \<in> {0..?N}" and j: "j \<in> {0..?N}" and eq: "?g i = ?g j"
    from i def obtain x where x: "nth_ancestor p i c = Some x" by auto
    from j def obtain y where y: "nth_ancestor p j c = Some y" by auto
    from eq x y have xy: "x = y" by simp
    show "i = j"
    proof (rule ccontr)
      assume "i \<noteq> j"
      then consider "i < j" | "j < i" by linarith
      then show False
      proof cases
        case 1
        from ancestors_differ [OF acyc c 1 x y] xy show False by simp
      next
        case 2
        from ancestors_differ [OF acyc c 2 y x] xy show False by simp
      qed
    qed
  qed
  moreover have "?g ` {0..?N} \<subseteq> set (comments p)"
  proof
    fix z
    assume "z \<in> ?g ` {0..?N}"
    then obtain i where i: "i \<le> ?N" and z: "z = ?g i" by auto
    from def [OF i] obtain x where x: "nth_ancestor p i c = Some x" by auto
    from nth_ancestor_member [OF x c] z x show "z \<in> set (comments p)" by simp
  qed
  ultimately have "card {0..?N} \<le> card (set (comments p))"
    by (metis card_inj_on_le List.finite_set)
  moreover have "card (set (comments p)) \<le> ?N" by (rule card_length)
  ultimately show False by simp
qed

lemma reply_chain_length: "reply_chain n p c = Some ds \<Longrightarrow> length ds \<le> n"
  by (induction n arbitrary: c ds) (auto split: option.splits)

lemma reply_chain_hd: "reply_chain n p c = Some ds \<Longrightarrow> \<exists>ds'. ds = c # ds'"
  by (cases n) (auto split: option.splits)

lemma reply_chain_ancestors:
  "reply_chain n p c = Some ds \<Longrightarrow> x \<in> set ds \<Longrightarrow> \<exists>k. nth_ancestor p k c = Some x"
proof (induction n arbitrary: c ds)
  case 0
  then show ?case by simp
next
  case (Suc n)
  show ?case
  proof (cases "parent_in p c")
    case None
    with Suc.prems have "x = c" by auto
    then have "nth_ancestor p 0 c = Some x" by simp
    then show ?thesis by blast
  next
    case (Some d)
    with Suc.prems(1) obtain ds' where ds': "reply_chain n p d = Some ds'" "ds = c # ds'"
      by auto
    show ?thesis
    proof (cases "x = c")
      case True
      then have "nth_ancestor p 0 c = Some x" by simp
      then show ?thesis by blast
    next
      case False
      with Suc.prems(2) ds' have "x \<in> set ds'" by simp
      from Suc.IH [OF ds'(1) this] obtain k where "nth_ancestor p k d = Some x" by blast
      then have "nth_ancestor p (Suc k) c = Some x" using Some by simp
      then show ?thesis by blast
    qed
  qed
qed

lemma reply_chain_distinct:
  assumes acyc: "acyclic_replies p"
  shows "reply_chain n p c = Some ds \<Longrightarrow> c \<in> set (comments p) \<Longrightarrow> distinct ds"
proof (induction n arbitrary: c ds)
  case 0
  then show ?case by simp
next
  case (Suc n)
  show ?case
  proof (cases "parent_in p c")
    case None
    with Suc.prems show ?thesis by auto
  next
    case (Some d)
    with Suc.prems(1) obtain ds' where ds': "reply_chain n p d = Some ds'" "ds = c # ds'"
      by auto
    have d: "d \<in> set (comments p)" using Some by (rule parent_in_member)
    have "distinct ds'" using Suc.IH [OF ds'(1) d] .
    moreover have "c \<notin> set ds'"
    proof
      assume "c \<in> set ds'"
      from reply_chain_ancestors [OF ds'(1) this] obtain k
        where "nth_ancestor p k d = Some c" by blast
      then have "nth_ancestor p (Suc k) c = Some c" using Some by simp
      with acyc Suc.prems(2) show False
        unfolding acyclic_replies_def own_ancestor_def by blast
    qed
    ultimately show ?thesis using ds'(2) by simp
  qed
qed

lemma reply_chain_members:
  "reply_chain n p c = Some ds \<Longrightarrow> c \<in> set (comments p) \<Longrightarrow> set ds \<subseteq> set (comments p)"
proof (induction n arbitrary: c ds)
  case 0
  then show ?case by simp
next
  case (Suc n)
  show ?case
  proof (cases "parent_in p c")
    case None
    with Suc.prems show ?thesis by auto
  next
    case (Some d)
    with Suc.prems(1) obtain ds' where ds': "reply_chain n p d = Some ds'" "ds = c # ds'"
      by auto
    have d: "d \<in> set (comments p)" using Some by (rule parent_in_member)
    from Suc.IH [OF ds'(1) d] Suc.prems(2) ds'(2) show ?thesis by simp
  qed
qed

text \<open>
  C3, as stated: in every post, following the parent links from any of its comments ends
  without coming back to a comment, within as many comments as the post has. The
  declarations admit a post whose only comment names itself as its parent: the comment is
  its own ancestor and the links do not end within the one comment of the post.
\<close>

theorem reply_chain_may_cycle:
  "self_reply \<in> set (comments self_reply_post) \<and>
   own_ancestor self_reply_post self_reply \<and>
   reply_chain (length (comments self_reply_post)) self_reply_post self_reply = None"
proof -
  have p: "parent_in self_reply_post self_reply = Some self_reply"
    by (simp add: parent_in_def self_reply_post_def self_reply_def)
  then have "nth_ancestor self_reply_post (Suc 0) self_reply = Some self_reply"
    by simp
  then have "own_ancestor self_reply_post self_reply"
    unfolding own_ancestor_def by (intro exI [of _ "Suc 0"]) simp
  moreover have "length (comments self_reply_post) = Suc 0"
    by (simp add: self_reply_post_def)
  moreover have "self_reply \<in> set (comments self_reply_post)"
    by (simp add: self_reply_post_def)
  ultimately show ?thesis using p by simp
qed

text \<open>
  C3, amended. The declarations type parentId as an optional string and exclude no
  cycle. In a post none of whose comments is its own ancestor, following the parent links
  from any comment of the post ends without visiting a comment twice, and the comments
  visited are comments of the post, at most as many as the post has.
\<close>

theorem reply_chain_terminates:
  assumes "acyclic_replies p" and "c \<in> set (comments p)"
  shows "\<exists>ds. reply_chain (length (comments p)) p c = Some ds \<and> distinct ds \<and>
           length ds \<le> length (comments p) \<and> set ds \<subseteq> set (comments p) \<and> hd ds = c"
proof -
  from reply_chain_ends [OF assms] obtain ds
    where ds: "reply_chain (length (comments p)) p c = Some ds" by auto
  have "distinct ds" using reply_chain_distinct [OF assms(1) ds assms(2)] .
  moreover have "length ds \<le> length (comments p)" using ds by (rule reply_chain_length)
  moreover have "set ds \<subseteq> set (comments p)" using ds assms(2) by (rule reply_chain_members)
  moreover have "hd ds = c" using reply_chain_hd [OF ds] by auto
  ultimately show ?thesis using ds by simp
qed

lemma replied_post_parents:
  "parent_in replied_post first_comment = None"
  "parent_in replied_post its_reply = Some first_comment"
  by (simp_all add: parent_in_def replied_post_def first_comment_def its_reply_def)

lemma replied_post_acyclic: "acyclic_replies replied_post"
proof -
  have a: "nth_ancestor replied_post k first_comment \<noteq> Some first_comment" if "0 < k" for k
    using that by (cases k) (simp_all add: replied_post_parents)
  have ne: "first_comment \<noteq> its_reply"
    by (simp add: first_comment_def its_reply_def)
  have n: "nth_ancestor replied_post k first_comment \<noteq> Some its_reply" for k
    using ne by (cases k) (simp_all add: replied_post_parents)
  have b: "nth_ancestor replied_post k its_reply \<noteq> Some its_reply" if "0 < k" for k
    using that n by (cases k) (simp_all add: replied_post_parents)
  have "comments replied_post = [first_comment, its_reply]"
    by (simp add: replied_post_def)
  with a b show ?thesis
    by (auto simp: acyclic_replies_def own_ancestor_def)
qed

lemma replied_post_chain:
  "reply_chain (length (comments replied_post)) replied_post its_reply =
     Some [its_reply, first_comment]"
proof -
  have "length (comments replied_post) = Suc (Suc 0)"
    by (simp add: replied_post_def)
  then show ?thesis by (simp add: replied_post_parents)
qed

theorem reply_chain_terminates_witness:
  "acyclic_replies replied_post \<and> its_reply \<in> set (comments replied_post) \<and>
   reply_chain (length (comments replied_post)) replied_post its_reply =
     Some [its_reply, first_comment] \<and>
   (\<exists>ds. reply_chain (length (comments replied_post)) replied_post its_reply = Some ds \<and>
      distinct ds \<and> length ds \<le> length (comments replied_post) \<and>
      set ds \<subseteq> set (comments replied_post) \<and> hd ds = its_reply)"
proof -
  have m: "its_reply \<in> set (comments replied_post)"
    by (simp add: replied_post_def)
  from reply_chain_terminates [OF replied_post_acyclic m] replied_post_acyclic m
    replied_post_chain
  show ?thesis by blast
qed

end
